theory Spec2Isabelle
  imports Complex_Main "HOL-Library.Multiset"
begin

section \<open>The timetable front end: grid construction and CSV export\<close>

text \<open>
  The development embeds the two pieces of \<^verbatim>\<open>src/frontend/app.js\<close> that compute
  something: \<^verbatim>\<open>renderTimetable\<close> (lines 172-224), which turns the schedule object
  into an ordered grid, and the click handler of the download button (lines 227-255),
  which serialises the rendered table to CSV. The HTML text that \<^verbatim>\<open>renderTimetable\<close>
  concatenates and the Blob download are left out; the ordered days, the ordered time
  slots and the cell values that go into the HTML are kept.
\<close>

subsection \<open>JavaScript strings\<close>

text \<open>
  A string is the list of its code units; the embedding covers code units below 256,
  one \<^typ>\<open>char\<close> each. \<^verbatim>\<open>String.prototype.trim\<close> removes white space and line
  terminators; below 256 these are TAB, LF, VT, FF, CR, SP and NBSP.
\<close>

definition isWhiteSpace :: "char \<Rightarrow> bool" where
  "isWhiteSpace c =
     (c \<in> set [CHR 0x09, CHR 0x0A, CHR 0x0B, CHR 0x0C, CHR 0x0D, CHR 0x20, CHR 0xA0])"

definition trimStart :: "string \<Rightarrow> string" where
  "trimStart s = dropWhile isWhiteSpace s"

definition trim :: "string \<Rightarrow> string" where
  "trim s = rev (dropWhile isWhiteSpace (rev (dropWhile isWhiteSpace s)))"

text \<open>\<^verbatim>\<open>s.split(sep)\<close> for a one-character separator: the pieces between separators,
  never an empty array.\<close>

fun js_split :: "char \<Rightarrow> string \<Rightarrow> string list" where
  "js_split sep [] = [[]]"
| "js_split sep (c # cs) =
     (if c = sep then [] # js_split sep cs
      else (case js_split sep cs of
              [] \<Rightarrow> [[c]]
            | p # ps \<Rightarrow> (c # p) # ps))"

text \<open>\<^verbatim>\<open>s.replace(a, b)\<close> with string arguments replaces the first occurrence only.\<close>

fun replace_first :: "char \<Rightarrow> char \<Rightarrow> string \<Rightarrow> string" where
  "replace_first a b [] = []"
| "replace_first a b (c # cs) = (if c = a then b # cs else c # replace_first a b cs)"

text \<open>\<^verbatim>\<open>s.includes(c)\<close> for a one-character needle.\<close>

fun js_includes :: "string \<Rightarrow> char \<Rightarrow> bool" where
  "js_includes [] c = False"
| "js_includes (x # xs) c = (if x = c then True else js_includes xs c)"

text \<open>\<^verbatim>\<open>parts.join(sep)\<close> for a one-character separator.\<close>

fun js_join :: "char \<Rightarrow> string list \<Rightarrow> string" where
  "js_join sep [] = []"
| "js_join sep [p] = p"
| "js_join sep (p # q # ps) = p @ sep # js_join sep (q # ps)"

subsection \<open>JavaScript numbers and \<^verbatim>\<open>parseFloat\<close>\<close>

text \<open>
  A number is NaN, an infinity or a finite value. A finite value is kept as the exact
  rational that the decimal text denotes (the mathematical value of the literal in
  ECMAScript's terms); the engine rounds that value to the nearest double. Rounding is
  monotone, and decimal texts of up to 15 significant digits round to different doubles
  when they denote different values, so on the labels \<^verbatim>\<open>HH:MM\<close> that the program is
  written for, comparisons of the exact values and of the doubles agree. Both zeros are
  one value here: the program only looks at the sign of a difference.
\<close>

datatype jsnum = NaN | PosInf | NegInf | Fin rat

fun neg :: "jsnum \<Rightarrow> jsnum" where
  "neg NaN = NaN"
| "neg PosInf = NegInf"
| "neg NegInf = PosInf"
| "neg (Fin r) = Fin (- r)"

text \<open>The subtraction \<^verbatim>\<open>a - b\<close> of two numbers.\<close>

fun sub :: "jsnum \<Rightarrow> jsnum \<Rightarrow> jsnum" where
  "sub NaN b = NaN"
| "sub a NaN = NaN"
| "sub PosInf PosInf = NaN"
| "sub NegInf NegInf = NaN"
| "sub PosInf b = PosInf"
| "sub NegInf b = NegInf"
| "sub (Fin a) PosInf = NegInf"
| "sub (Fin a) NegInf = PosInf"
| "sub (Fin a) (Fin b) = Fin (a - b)"

definition isDigit :: "char \<Rightarrow> bool" where
  "isDigit c = (48 \<le> (of_char c :: nat) \<and> (of_char c :: nat) \<le> 57)"

definition digitVal :: "char \<Rightarrow> nat" where
  "digitVal c = of_char c - 48"

definition digitsVal :: "string \<Rightarrow> nat" where
  "digitsVal ds = foldl (\<lambda>a c. 10 * a + digitVal c) 0 ds"

text \<open>The value of integer digits \<open>ip\<close>, fraction digits \<open>fp\<close> and a decimal exponent.\<close>

definition mv :: "string \<Rightarrow> string \<Rightarrow> int \<Rightarrow> rat" where
  "mv ip fp ex =
     (let m = of_nat (digitsVal ip) + of_nat (digitsVal fp) / 10 ^ length fp
      in if 0 \<le> ex then m * 10 ^ nat ex else m / 10 ^ nat (- ex))"

definition expDigits :: "string \<Rightarrow> int \<Rightarrow> int" where
  "expDigits r sg =
     (let d = takeWhile isDigit r in if d = [] then 0 else sg * int (digitsVal d))"

text \<open>The exponent part at the head of \<open>r\<close>, if there is a complete one: \<^verbatim>\<open>e\<close> or
  \<^verbatim>\<open>E\<close>, an optional sign and at least one digit. Otherwise the literal ends before
  \<open>r\<close> and the exponent is 0.\<close>

definition exponent :: "string \<Rightarrow> int" where
  "exponent r =
     (case r of
        [] \<Rightarrow> 0
      | e # r' \<Rightarrow>
          if e = CHR ''e'' \<or> e = CHR ''E'' then
            (case r' of
               [] \<Rightarrow> 0
             | s # r'' \<Rightarrow>
                 if s = CHR ''+'' then expDigits r'' 1
                 else if s = CHR ''-'' then expDigits r'' (- 1)
                 else expDigits r' 1)
          else 0)"

text \<open>The longest prefix of \<open>s\<close> that is an unsigned decimal literal
  (\<^verbatim>\<open>Infinity\<close>, \<^verbatim>\<open>d.d\<close>, \<^verbatim>\<open>d.\<close>, \<^verbatim>\<open>.d\<close> or \<^verbatim>\<open>d\<close>, then an optional
  exponent), as a number; NaN when no prefix is one.\<close>

definition parseUnsigned :: "string \<Rightarrow> jsnum" where
  "parseUnsigned s =
     (if take 8 s = ''Infinity'' then PosInf
      else
        (let ip = takeWhile isDigit s; r1 = dropWhile isDigit s
         in case r1 of
              [] \<Rightarrow> if ip = [] then NaN else Fin (mv ip [] 0)
            | c # r \<Rightarrow>
                if c = CHR ''.'' then
                  (let fp = takeWhile isDigit r
                   in if ip = [] \<and> fp = [] then NaN
                      else Fin (mv ip fp (exponent (dropWhile isDigit r))))
                else if ip = [] then NaN
                else Fin (mv ip [] (exponent r1))))"

definition parseFloat :: "string \<Rightarrow> jsnum" where
  "parseFloat s =
     (case trimStart s of
        [] \<Rightarrow> NaN
      | c # r \<Rightarrow>
          if c = CHR ''+'' then parseUnsigned r
          else if c = CHR ''-'' then neg (parseUnsigned r)
          else parseUnsigned (c # r))"

subsection \<open>\<^verbatim>\<open>Array.prototype.sort\<close> with a comparator\<close>

text \<open>
  The engine turns the comparator's result into a sign; NaN counts as 0. ECMAScript
  requires the sort to be stable and fixes its result when the comparator is a
  consistent ordering; otherwise the order is left to the engine. The embedding is an
  insertion sort that keeps an element in front of those it does not compare greater
  than, which is the stable result for every consistent comparator. With a NaN key in
  the array the comparator is not consistent and an engine may order longer arrays
  differently; the statements below that involve NaN keys use arrays on which every
  comparison that a stable sort can make either ties or leaves the order as it is.
\<close>

definition sortCompare :: "('a \<Rightarrow> 'a \<Rightarrow> jsnum) \<Rightarrow> 'a \<Rightarrow> 'a \<Rightarrow> int" where
  "sortCompare comparefn a b =
     (case comparefn a b of
        NaN \<Rightarrow> 0
      | PosInf \<Rightarrow> 1
      | NegInf \<Rightarrow> - 1
      | Fin v \<Rightarrow> if v < 0 then - 1 else if 0 < v then 1 else 0)"

fun sort_insert :: "('a \<Rightarrow> 'a \<Rightarrow> jsnum) \<Rightarrow> 'a \<Rightarrow> 'a list \<Rightarrow> 'a list" where
  "sort_insert comparefn x [] = [x]"
| "sort_insert comparefn x (y # ys) =
     (if sortCompare comparefn x y \<le> 0 then x # y # ys
      else y # sort_insert comparefn x ys)"

fun js_sort :: "('a \<Rightarrow> 'a \<Rightarrow> jsnum) \<Rightarrow> 'a list \<Rightarrow> 'a list" where
  "js_sort comparefn [] = []"
| "js_sort comparefn (x # xs) = sort_insert comparefn x (js_sort comparefn xs)"

text \<open>\<^verbatim>\<open>xs.indexOf(x)\<close>: the first position of \<open>x\<close>, or -1.\<close>

fun indexOf :: "'a list \<Rightarrow> 'a \<Rightarrow> int" where
  "indexOf [] x = - 1"
| "indexOf (y # ys) x =
     (if y = x then 0
      else (let i = indexOf ys x in if i < 0 then - 1 else i + 1))"

subsection \<open>Objects and property reads\<close>

text \<open>
  A plain object with string values is the association list of its own properties in
  the order \<^verbatim>\<open>Object.keys\<close> enumerates them; the keys of an object are distinct.
  The schedule is such an object whose values are such objects.
\<close>

type_synonym obj = "(string \<times> string) list"
type_synonym schedule = "(string \<times> obj) list"

definition wf_schedule :: "schedule \<Rightarrow> bool" where
  "wf_schedule data =
     (distinct (map fst data) \<and> list_all (\<lambda>p. distinct (map fst (snd p))) data)"

definition keys :: "(string \<times> 'v) list \<Rightarrow> string list" where
  "keys ob = map fst ob"

text \<open>
  Reading \<^verbatim>\<open>o[k]\<close> gives the own property when there is one; otherwise the lookup
  goes on in \<^verbatim>\<open>Object.prototype\<close>, whose members are functions (and, for
  \<^verbatim>\<open>__proto__\<close>, the prototype object itself); otherwise the result is undefined.
\<close>

datatype jsval = Undefined | Str string | Inherited string

definition objectPrototypeKeys :: "string list" where
  "objectPrototypeKeys =
     [''constructor'', ''hasOwnProperty'', ''isPrototypeOf'', ''propertyIsEnumerable'',
      ''toLocaleString'', ''toString'', ''valueOf'', ''__proto__'',
      ''__defineGetter__'', ''__defineSetter__'', ''__lookupGetter__'',
      ''__lookupSetter__'']"

definition getProp :: "obj \<Rightarrow> string \<Rightarrow> jsval" where
  "getProp ob k =
     (case map_of ob k of
        Some v \<Rightarrow> Str v
      | None \<Rightarrow> if k \<in> set objectPrototypeKeys then Inherited k else Undefined)"

text \<open>\<^verbatim>\<open>v || ''\<close>: the empty string replaces a falsy value (undefined, the empty
  string); functions and objects are truthy.\<close>

fun orEmpty :: "jsval \<Rightarrow> jsval" where
  "orEmpty Undefined = Str []"
| "orEmpty (Str s) = (if s = [] then Str [] else Str s)"
| "orEmpty (Inherited k) = Inherited k"

subsection \<open>\<^verbatim>\<open>renderTimetable\<close>\<close>

text \<open>A \<^verbatim>\<open>Set\<close> keeps its members in insertion order; \<^verbatim>\<open>add\<close> of a member
  changes nothing.\<close>

definition set_add :: "string list \<Rightarrow> string \<Rightarrow> string list" where
  "set_add s x = (if x \<in> set s then s else s @ [x])"

text \<open>The slots of \<^verbatim>\<open>data[day]\<close> for a day taken from \<^verbatim>\<open>Object.keys(data)\<close>.\<close>

definition slotsOf :: "schedule \<Rightarrow> string \<Rightarrow> obj" where
  "slotsOf data day = (case map_of data day of Some ob \<Rightarrow> ob | None \<Rightarrow> [])"

text \<open>Lines 183-186: all time slots of all days, in the order met.\<close>

definition timeSlots :: "schedule \<Rightarrow> string list" where
  "timeSlots data =
     foldl (\<lambda>s day. foldl set_add s (keys (slotsOf data day))) [] (keys data)"

text \<open>
  Lines 190-196. The \<^verbatim>\<open>catch\<close> answers 99 when the body throws, which would take
  \<^verbatim>\<open>split\<close> to give an empty array (\<^verbatim>\<open>undefined.trim()\<close>); \<^verbatim>\<open>parseFloat\<close>
  itself never throws.
\<close>

definition parseTime :: "string \<Rightarrow> jsnum" where
  "parseTime t =
     (case js_split (CHR ''-'') t of
        [] \<Rightarrow> Fin 99
      | p # ps \<Rightarrow>
          (let first = trim p;
               val = parseFloat (replace_first (CHR '':'') (CHR ''.'') first)
           in val))"

definition timeCompare :: "string \<Rightarrow> string \<Rightarrow> jsnum" where
  "timeCompare a b = sub (parseTime a) (parseTime b)"

definition dayOrder :: "string list" where
  "dayOrder = [''Monday'', ''Tuesday'', ''Wednesday'', ''Thursday'', ''Friday'',
               ''Saturday'', ''Sunday'']"

definition dayCompare :: "string \<Rightarrow> string \<Rightarrow> jsnum" where
  "dayCompare a b = Fin (of_int (indexOf dayOrder a - indexOf dayOrder b))"

text \<open>Line 216: \<^verbatim>\<open>data[day][time] || ''\<close>.\<close>

definition cell :: "schedule \<Rightarrow> string \<Rightarrow> string \<Rightarrow> jsval" where
  "cell data day time = orEmpty (getProp (slotsOf data day) time)"

text \<open>
  The outcome of a call: the placeholder paragraph (lines 177-180), or a table with
  its row headers, its column headers and the cell values row by row.
\<close>

datatype rendered =
  Placeholder
| Table "string list" "string list" "jsval list list"

definition renderTimetable :: "schedule \<Rightarrow> rendered" where
  "renderTimetable data =
     (let days = keys data
      in if length days = 0 then Placeholder
         else
           (let sortedTimes = js_sort timeCompare (timeSlots data);
                sortedDays = js_sort dayCompare days
            in Table sortedDays sortedTimes
                 (map (\<lambda>day. map (\<lambda>time. cell data day time) sortedTimes) sortedDays)))"

fun gridRows :: "rendered \<Rightarrow> string list" where
  "gridRows Placeholder = []"
| "gridRows (Table ds ts cs) = ds"

fun gridCols :: "rendered \<Rightarrow> string list" where
  "gridCols Placeholder = []"
| "gridCols (Table ds ts cs) = ts"

fun gridCells :: "rendered \<Rightarrow> jsval list list" where
  "gridCells Placeholder = []"
| "gridCells (Table ds ts cs) = cs"

subsection \<open>The download handler\<close>

definition dquote :: char where
  "dquote = CHR 0x22"

definition comma :: char where
  "comma = CHR '',''"

definition newline :: char where
  "newline = CHR 0x0A"

text \<open>\<^verbatim>\<open>text.replace(/"/g, '""')\<close>: every double quote is doubled.\<close>

fun replace_quotes :: "string \<Rightarrow> string" where
  "replace_quotes [] = []"
| "replace_quotes (c # cs) =
     (if c = dquote then dquote # dquote # replace_quotes cs else c # replace_quotes cs)"

text \<open>Lines 239-242, on the text of one cell.\<close>

definition escapeField :: "string \<Rightarrow> string" where
  "escapeField text =
     (if js_includes text comma \<or> js_includes text dquote
      then dquote # replace_quotes text @ [dquote]
      else text)"

text \<open>
  Lines 231-245 on the texts of the cells, row by row: \<^verbatim>\<open>csv\<close> starts empty and
  every row appends its escaped fields joined by commas and a newline.
\<close>

definition toCsv :: "string list list \<Rightarrow> string" where
  "toCsv rows =
     foldl (\<lambda>csv row. csv @ js_join comma (map escapeField row) @ [newline]) [] rows"

text \<open>
  The handler itself: without a table it returns at once (line 229); otherwise the text
  of a cell is its \<^verbatim>\<open>textContent\<close> trimmed (line 237), and the document is built
  from these texts.
\<close>

definition downloadCsv :: "string list list option \<Rightarrow> string option" where
  "downloadCsv table =
     (case table of
        None \<Rightarrow> None
      | Some rows \<Rightarrow> Some (toCsv (map (map trim) rows)))"

subsection \<open>Reading a CSV document back\<close>

text \<open>
  The reader is not part of the program. It follows the specification's words: rows
  are split on newline, fields on commas outside quotes, and a doubled quote inside a
  quoted field stands for one quote. \<open>csv_fields q cur s\<close> reads the fields of one
  row from \<open>s\<close>, with \<open>q\<close> telling whether the position is inside quotes and
  \<open>cur\<close> the field read so far.
\<close>

fun csv_fields :: "bool \<Rightarrow> string \<Rightarrow> string \<Rightarrow> string list" where
  "csv_fields q cur [] = [cur]"
| "csv_fields False cur (c # cs) =
     (if c = comma then cur # csv_fields False [] cs
      else if c = dquote then csv_fields True cur cs
      else csv_fields False (cur @ [c]) cs)"
| "csv_fields True cur [c] =
     (if c = dquote then csv_fields False cur [] else csv_fields True (cur @ [c]) [])"
| "csv_fields True cur (c # d # ds) =
     (if c = dquote then
        (if d = dquote then csv_fields True (cur @ [dquote]) ds
         else csv_fields False cur (d # ds))
      else csv_fields True (cur @ [c]) (d # ds))"

text \<open>The rows of a document: the pieces between newlines, without the empty piece
  after the final newline.\<close>

definition csv_lines :: "string \<Rightarrow> string list" where
  "csv_lines s =
     (let ls = js_split newline s in if last ls = [] then butlast ls else ls)"

definition parseCsv :: "string \<Rightarrow> string list list" where
  "parseCsv s = map (csv_fields False []) (csv_lines s)"

subsection \<open>Vocabulary of the properties\<close>

text \<open>The time-slot labels that appear under some day of the schedule.\<close>

definition slotLabels :: "schedule \<Rightarrow> string list" where
  "slotLabels data = concat (map (\<lambda>p. keys (snd p)) data)"



section \<open>Properties\<close>

subsection \<open>Sorting\<close>

lemma mset_sort_insert: "mset (sort_insert f x xs) = add_mset x (mset xs)"
  by (induction xs) auto

lemma mset_js_sort: "mset (js_sort f xs) = mset xs"
  by (induction xs) (auto simp: mset_sort_insert)

lemma set_js_sort: "set (js_sort f xs) = set xs"
  by (metis mset_js_sort set_mset_mset)

lemma distinct_js_sort: "distinct (js_sort f xs) = distinct xs"
  by (metis mset_js_sort distinct_count_atmost_1 set_mset_mset count_mset)

text \<open>When the comparator orders the elements of the list by a key, the result is the
  stable sort by that key.\<close>

lemma sort_insert_key:
  assumes "\<And>y. y \<in> set ys \<Longrightarrow> (sortCompare f x y \<le> 0) = (k x \<le> k y)"
  shows "sort_insert f x ys = insort_key k x ys"
  using assms by (induction ys) auto

lemma js_sort_key:
  assumes "\<And>a b. a \<in> set xs \<Longrightarrow> b \<in> set xs \<Longrightarrow> (sortCompare f a b \<le> 0) = (k a \<le> k b)"
  shows "js_sort f xs = sort_key k xs"
  using assms
proof (induction xs)
  case Nil
  then show ?case by simp
next
  case (Cons x xs)
  have ih: "js_sort f xs = sort_key k xs"
    using Cons by simp
  have "sort_insert f x (sort_key k xs) = insort_key k x (sort_key k xs)"
    by (rule sort_insert_key) (use Cons.prems in simp)
  then show ?case
    by (simp add: ih sort_key_def)
qed

lemma indexOf_ge: "- 1 \<le> indexOf xs x"
  by (induction xs) (auto simp: Let_def)

lemma indexOf_absent: "(indexOf xs x = - 1) = (x \<notin> set xs)"
proof (induction xs)
  case Nil
  then show ?case by simp
next
  case (Cons y ys)
  have "- 1 \<le> indexOf ys x" by (rule indexOf_ge)
  with Cons show ?case by (auto simp: Let_def)
qed

lemma dayCompare_key:
  "(sortCompare dayCompare a b \<le> 0) = (indexOf dayOrder a \<le> indexOf dayOrder b)"
  by (simp add: sortCompare_def dayCompare_def)

lemma sortedDays_sort_key:
  "js_sort dayCompare ds = sort_key (indexOf dayOrder) ds"
  by (rule js_sort_key) (rule dayCompare_key)

lemma rows_renderTimetable:
  "gridRows (renderTimetable data) = js_sort dayCompare (keys data)"
  by (simp add: renderTimetable_def Let_def)

lemma cols_renderTimetable:
  "gridCols (renderTimetable data) =
     (if data = [] then [] else js_sort timeCompare (timeSlots data))"
  by (simp add: renderTimetable_def Let_def keys_def)

subsection \<open>Order of the rows\<close>

lemma rows_unrecognized_first:
  assumes srt: "sorted (map (indexOf dayOrder) rows)"
    and i: "i < length rows" and j: "j < length rows"
    and ui: "rows ! i \<notin> set dayOrder" and rj: "rows ! j \<in> set dayOrder"
  shows "i < j"
proof (rule ccontr)
  assume "\<not> i < j"
  then have "j \<le> i" by simp
  then have "map (indexOf dayOrder) rows ! j \<le> map (indexOf dayOrder) rows ! i"
    using srt i by (simp add: sorted_iff_nth_mono del: nth_map)
  then have le: "indexOf dayOrder (rows ! j) \<le> indexOf dayOrder (rows ! i)"
    using i j by simp
  have "indexOf dayOrder (rows ! i) = - 1"
    using ui by (simp add: indexOf_absent)
  moreover have "indexOf dayOrder (rows ! j) \<noteq> - 1"
    using rj by (simp add: indexOf_absent)
  moreover have "- 1 \<le> indexOf dayOrder (rows ! j)"
    by (rule indexOf_ge)
  ultimately show False using le by simp
qed

text \<open>
  C1, as the code has it. \<^verbatim>\<open>indexOf\<close> answers -1 for a day name that is not in the
  canonical list, so such a day is placed before every recognized day, not after. It is
  never dropped (the rows are a permutation of the day keys), and the unrecognized
  names keep their original relative order.
\<close>

theorem unrecognized_days_first:
  "mset (gridRows (renderTimetable data)) = mset (keys data) \<and>
   filter (\<lambda>d. d \<notin> set dayOrder) (gridRows (renderTimetable data)) =
     filter (\<lambda>d. d \<notin> set dayOrder) (keys data) \<and>
   (\<forall>i j. i < length (gridRows (renderTimetable data)) \<and>
          j < length (gridRows (renderTimetable data)) \<and>
          gridRows (renderTimetable data) ! i \<notin> set dayOrder \<and>
          gridRows (renderTimetable data) ! j \<in> set dayOrder \<longrightarrow> i < j)"
proof -
  let ?rows = "gridRows (renderTimetable data)"
  have rows: "?rows = sort_key (indexOf dayOrder) (keys data)"
    by (simp add: rows_renderTimetable sortedDays_sort_key)
  have perm: "mset ?rows = mset (keys data)"
    by (simp add: rows_renderTimetable mset_js_sort)
  have "filter (\<lambda>d. indexOf dayOrder d = - 1) (sort_key (indexOf dayOrder) (keys data)) =
        filter (\<lambda>d. indexOf dayOrder d = - 1) (keys data)"
    by (rule sort_key_stable)
  then have stable: "filter (\<lambda>d. d \<notin> set dayOrder) ?rows =
      filter (\<lambda>d. d \<notin> set dayOrder) (keys data)"
    by (simp add: rows indexOf_absent)
  have "sorted (map (indexOf dayOrder) ?rows)"
    by (simp add: rows)
  then have first: "\<forall>i j. i < length ?rows \<and> j < length ?rows \<and>
       ?rows ! i \<notin> set dayOrder \<and> ?rows ! j \<in> set dayOrder \<longrightarrow> i < j"
    using rows_unrecognized_first by blast
  from perm stable first show ?thesis by blast
qed

text \<open>
  C1, witness: with the day keys Sunday, Funday, Monday, Blursday the row at position 1
  is unrecognized, the row at position 2 is recognized, and the unrecognized rows are
  Funday, Blursday in their original order.
\<close>

theorem unrecognized_days_first_witness:
  "gridRows (renderTimetable
      [(''Sunday'', []), (''Funday'', []), (''Monday'', []), (''Blursday'', [])]) ! 1
     \<notin> set dayOrder \<and>
   gridRows (renderTimetable
      [(''Sunday'', []), (''Funday'', []), (''Monday'', []), (''Blursday'', [])]) ! 2
     \<in> set dayOrder \<and>
   (1::nat) < 2 \<and>
   filter (\<lambda>d. d \<notin> set dayOrder) (gridRows (renderTimetable
      [(''Sunday'', []), (''Funday'', []), (''Monday'', []), (''Blursday'', [])])) =
     [''Funday'', ''Blursday'']"
proof -
  let ?data = "[(''Sunday'', []), (''Funday'', []), (''Monday'', []), (''Blursday'', [])]
                 :: schedule"
  have rows: "gridRows (renderTimetable ?data) =
      [''Funday'', ''Blursday'', ''Monday'', ''Sunday'']"
    by code_simp
  have "filter (\<lambda>d. d \<notin> set dayOrder) (gridRows (renderTimetable ?data)) =
        filter (\<lambda>d. d \<notin> set dayOrder) (keys ?data)"
    using unrecognized_days_first [of ?data] by (elim conjE)
  then show ?thesis
    by (simp add: rows keys_def dayOrder_def)
qed

text \<open>
  C1, counterexample to the claim as stated: with the day keys Sunday, Funday the row
  order is Funday, Sunday; the unrecognized day does not come after Sunday.
\<close>

theorem funday_before_sunday:
  "gridRows (renderTimetable [(''Sunday'', []), (''Funday'', [])]) = [''Funday'', ''Sunday'']"
  by code_simp

subsection \<open>The first example of the specification\<close>

text \<open>
  C2, counterexample to the claim as stated: the columns of the example are not
  10:00 - 11:00 followed by 9:00 - 10:00.
\<close>

theorem example1_columns_counterexample:
  "gridCols (renderTimetable
      [(''Tuesday'', [(''9:00 - 10:00'', ''Math (R1)'')]),
       (''Monday'', [(''10:00 - 11:00'', ''Phys (R2)'')])])
   \<noteq> [''10:00 - 11:00'', ''9:00 - 10:00'']"
  by code_simp

text \<open>
  C2, as the code has it: the keys of the two labels are the numbers 9 and 10, compared
  as numbers, so the rows are Monday, Tuesday and the columns are 9:00 - 10:00 followed
  by 10:00 - 11:00.
\<close>

theorem example1_grid:
  "gridRows (renderTimetable
      [(''Tuesday'', [(''9:00 - 10:00'', ''Math (R1)'')]),
       (''Monday'', [(''10:00 - 11:00'', ''Phys (R2)'')])]) = [''Monday'', ''Tuesday''] \<and>
   gridCols (renderTimetable
      [(''Tuesday'', [(''9:00 - 10:00'', ''Math (R1)'')]),
       (''Monday'', [(''10:00 - 11:00'', ''Phys (R2)'')])])
     = [''9:00 - 10:00'', ''10:00 - 11:00''] \<and>
   parseTime ''9:00 - 10:00'' = Fin 9 \<and> parseTime ''10:00 - 11:00'' = Fin 10"
  by code_simp

subsection \<open>Labels that do not parse\<close>

text \<open>\<^verbatim>\<open>split\<close> never gives an empty array, so the \<^verbatim>\<open>catch\<close> of
  \<^verbatim>\<open>parseTime\<close> with its 99 is never reached.\<close>

lemma js_split_not_Nil: "js_split sep s \<noteq> []"
  by (induction s) (auto split: list.splits)

lemma parseTime_no_catch:
  "parseTime t =
     parseFloat (replace_first (CHR '':'') (CHR ''.'') (trim (hd (js_split (CHR ''-'') t))))"
  using js_split_not_Nil [of "CHR ''-''" t]
  by (cases "js_split (CHR ''-'') t") (simp_all add: parseTime_def)

text \<open>A label whose key is NaN ties with every label, on either side of the
  comparison.\<close>

lemma nan_key_ties:
  assumes "parseTime a = NaN"
  shows "sortCompare timeCompare a b = 0" and "sortCompare timeCompare b a = 0"
  using assms by (cases "parseTime b"; simp add: sortCompare_def timeCompare_def)+

text \<open>
  C3, the code at the failing input: the label abc has no number in front, its key is
  NaN and not a sentinel, every comparison with it counts as a tie, and the column abc
  stays in front of the column 9:00 - 10:00.
\<close>

theorem malformed_label_not_last:
  "parseTime ''abc'' = NaN \<and>
   parseTime ''9:00 - 10:00'' = Fin 9 \<and>
   gridCols (renderTimetable [(''Monday'', [(''abc'', ''X''), (''9:00 - 10:00'', ''Y'')])])
     = [''abc'', ''9:00 - 10:00'']"
  by code_simp

subsection \<open>Cells\<close>

text \<open>For a slot label that is not the name of a member of \<^verbatim>\<open>Object.prototype\<close>
  the cell is a string: the stored label, or the empty string when the day has no such
  slot. An own slot is always read as stored.\<close>

lemma cell_stored_or_empty:
  assumes "time \<notin> set objectPrototypeKeys"
  shows "cell data day time =
           Str (case map_of (slotsOf data day) time of Some v \<Rightarrow> v | None \<Rightarrow> [])"
  using assms by (simp add: cell_def getProp_def split: option.splits)

lemma cell_own:
  assumes "map_of (slotsOf data day) time = Some v"
  shows "cell data day time = Str v"
  using assms by (simp add: cell_def getProp_def)

text \<open>
  C8, the code at the failing input: Tuesday has no slot named toString, the read finds
  the member of \<^verbatim>\<open>Object.prototype\<close>, which is truthy, and the cell is that function
  and not a string.
\<close>

theorem inherited_member_cell:
  "gridCells (renderTimetable
      [(''Monday'', [(''toString'', ''X'')]), (''Tuesday'', [(''9:00 - 10:00'', ''Y'')])])
   = [[Str ''X'', Str []], [Inherited ''toString'', Str ''Y'']]"
  by code_simp

subsection \<open>The empty schedule\<close>

text \<open>
  C9: a schedule without day keys takes the placeholder path, which has no rows and no
  columns; every other schedule gives a table with at least one row, so the two
  outcomes are told apart.
\<close>

theorem empty_schedule_placeholder:
  "renderTimetable [] = Placeholder \<and>
   gridRows (renderTimetable []) = [] \<and> gridCols (renderTimetable []) = [] \<and>
   (data \<noteq> [] \<longrightarrow>
      renderTimetable data \<noteq> Placeholder \<and> gridRows (renderTimetable data) \<noteq> [])"
proof -
  have "data \<noteq> [] \<Longrightarrow> gridRows (renderTimetable data) \<noteq> []"
    by (metis rows_renderTimetable mset_js_sort mset_zero_iff keys_def map_is_Nil_conv)
  moreover have "data \<noteq> [] \<Longrightarrow> renderTimetable data \<noteq> Placeholder"
    by (simp add: renderTimetable_def keys_def Let_def)
  ultimately show ?thesis
    by (simp add: renderTimetable_def keys_def)
qed

text \<open>C9, witness: the schedule with the one day Monday and no slots gives a table.\<close>

theorem empty_schedule_placeholder_witness:
  "[(''Monday'', [])] \<noteq> ([] :: schedule) \<and>
   renderTimetable [(''Monday'', [])] = Table [''Monday''] [] [[]] \<and>
   renderTimetable [(''Monday'', [])] \<noteq> Placeholder"
  using empty_schedule_placeholder [of "[(''Monday'', [])]"]
  by code_simp

subsection \<open>Completeness of the columns\<close>

lemma set_foldl_set_add: "set (foldl set_add s xs) = set s \<union> set xs"
  by (induction xs arbitrary: s) (auto simp: set_add_def)

lemma distinct_foldl_set_add: "distinct s \<Longrightarrow> distinct (foldl set_add s xs)"
  by (induction xs arbitrary: s) (auto simp: set_add_def)

lemma set_collect_slots:
  "set (foldl (\<lambda>s day. foldl set_add s (g day)) s0 ds) = set s0 \<union> (\<Union>d\<in>set ds. set (g d))"
  by (induction ds arbitrary: s0) (auto simp: set_foldl_set_add)

lemma distinct_collect_slots:
  "distinct s0 \<Longrightarrow> distinct (foldl (\<lambda>s day. foldl set_add s (g day)) s0 ds)"
  by (induction ds arbitrary: s0) (auto simp: distinct_foldl_set_add)

lemma distinct_timeSlots: "distinct (timeSlots data)"
  by (simp add: timeSlots_def distinct_collect_slots)

lemma set_timeSlots:
  "set (timeSlots data) = (\<Union>d\<in>set (keys data). set (keys (slotsOf data d)))"
  by (simp add: timeSlots_def set_collect_slots)

lemma set_slotLabels: "set (slotLabels data) = (\<Union>p\<in>set data. set (keys (snd p)))"
  by (simp add: slotLabels_def)

lemma timeSlots_subset: "set (timeSlots data) \<subseteq> set (slotLabels data)"
proof
  fix t assume "t \<in> set (timeSlots data)"
  then obtain d where d: "d \<in> set (keys data)" and t: "t \<in> set (keys (slotsOf data d))"
    by (auto simp: set_timeSlots)
  show "t \<in> set (slotLabels data)"
  proof (cases "map_of data d")
    case None
    with t show ?thesis by (simp add: slotsOf_def keys_def)
  next
    case (Some ob)
    then have "(d, ob) \<in> set data" by (rule map_of_SomeD)
    moreover have "t \<in> set (keys ob)" using t Some by (simp add: slotsOf_def)
    ultimately show ?thesis by (force simp: set_slotLabels)
  qed
qed

lemma slotsOf_own:
  assumes "distinct (map fst data)" and "(d, ob) \<in> set data"
  shows "slotsOf data d = ob"
  using assms by (simp add: slotsOf_def)

lemma slotLabels_subset:
  assumes "distinct (map fst data)"
  shows "set (slotLabels data) \<subseteq> set (timeSlots data)"
proof
  fix t assume "t \<in> set (slotLabels data)"
  then obtain d ob where p: "(d, ob) \<in> set data" and t: "t \<in> set (keys ob)"
    by (auto simp: set_slotLabels)
  have "slotsOf data d = ob" using assms p by (rule slotsOf_own)
  moreover have "d \<in> set (keys data)" using p by (force simp: keys_def)
  ultimately show "t \<in> set (timeSlots data)"
    using t by (auto simp: set_timeSlots)
qed

text \<open>
  C7: for a schedule object (distinct day keys, distinct slot keys), a label is in the
  column list exactly once when it appears under some day, however many days have it,
  and not at all otherwise.
\<close>

theorem columns_each_label_once:
  assumes "wf_schedule data"
  shows "count_list (gridCols (renderTimetable data)) t =
           (if t \<in> set (slotLabels data) then 1 else 0)"
proof -
  let ?cols = "gridCols (renderTimetable data)"
  have dist: "distinct (map fst data)"
    using assms by (simp add: wf_schedule_def)
  have labels: "set (timeSlots data) = set (slotLabels data)"
    using timeSlots_subset slotLabels_subset [OF dist] by blast
  have "set ?cols = set (slotLabels data)"
  proof (cases "data = []")
    case True
    then show ?thesis by (simp add: cols_renderTimetable slotLabels_def)
  next
    case False
    then show ?thesis by (simp add: cols_renderTimetable set_js_sort labels)
  qed
  moreover have "distinct ?cols"
    by (simp add: cols_renderTimetable distinct_js_sort distinct_timeSlots)
  ultimately show ?thesis
    by (metis count_mset distinct_count_atmost_1)
qed

text \<open>
  C7, witness: Monday and Tuesday both have the slot 9:00 - 10:00; it is one column.
\<close>

theorem columns_each_label_once_witness:
  "wf_schedule
     [(''Monday'', [(''9:00 - 10:00'', ''A''), (''10:00 - 11:00'', ''B'')]),
      (''Tuesday'', [(''9:00 - 10:00'', ''C'')])] \<and>
   ''9:00 - 10:00'' \<in> set (slotLabels
     [(''Monday'', [(''9:00 - 10:00'', ''A''), (''10:00 - 11:00'', ''B'')]),
      (''Tuesday'', [(''9:00 - 10:00'', ''C'')])]) \<and>
   count_list (gridCols (renderTimetable
     [(''Monday'', [(''9:00 - 10:00'', ''A''), (''10:00 - 11:00'', ''B'')]),
      (''Tuesday'', [(''9:00 - 10:00'', ''C'')])])) ''9:00 - 10:00'' = 1"
proof -
  let ?data = "[(''Monday'', [(''9:00 - 10:00'', ''A''), (''10:00 - 11:00'', ''B'')]),
      (''Tuesday'', [(''9:00 - 10:00'', ''C'')])] :: schedule"
  have wf: "wf_schedule ?data" by code_simp
  have mem: "''9:00 - 10:00'' \<in> set (slotLabels ?data)" by code_simp
  show ?thesis
    using wf mem columns_each_label_once [OF wf, of "''9:00 - 10:00''"] by simp
qed

subsection \<open>The sort key of a time slot\<close>

lemma js_split_first:
  "sep \<notin> set a \<Longrightarrow> js_split sep (a @ sep # b) = a # js_split sep b"
  by (induction a) auto













subsection \<open>CSV fields and rows\<close>

lemma js_includes_set: "js_includes s c = (c \<in> set s)"
  by (induction s) auto

lemma replace_quotes_concat:
  "replace_quotes f = concat (map (\<lambda>c. if c = dquote then [dquote, dquote] else [c]) f)"
  by (induction f) auto

lemma length_replace_quotes: "length f \<le> length (replace_quotes f)"
  by (induction f) auto

lemma set_replace_quotes: "set (replace_quotes f) = set f"
  by (induction f) auto

lemma escapeField_cases:
  "escapeField f =
     (if comma \<in> set f \<or> dquote \<in> set f then dquote # replace_quotes f @ [dquote] else f)"
  by (simp add: escapeField_def js_includes_set)

lemma js_join_Cons: "js_join sep (p # ps) = p @ concat (map ((#) sep) ps)"
  by (induction ps arbitrary: p) auto

lemma toCsv_foldl:
  "foldl (\<lambda>csv row. csv @ g row) acc rows = acc @ concat (map g rows)"
  by (induction rows arbitrary: acc) auto

lemma toCsv_concat:
  "toCsv rows = concat (map (\<lambda>r. js_join comma (map escapeField r) @ [newline]) rows)"
  by (simp add: toCsv_def toCsv_foldl)

text \<open>The handler does nothing without a table, and on cell texts that have no
  white space at either end it is \<open>toCsv\<close> of these texts.\<close>

lemma downloadCsv_no_table: "downloadCsv None = None"
  by (simp add: downloadCsv_def)

lemma downloadCsv_trimmed:
  assumes "list_all (list_all (\<lambda>c. trim c = c)) rows"
  shows "downloadCsv (Some rows) = Some (toCsv rows)"
proof -
  have "map (map trim) rows = rows"
    using assms by (auto simp: list_all_iff intro!: map_idI)
  then show ?thesis by (simp add: downloadCsv_def)
qed

text \<open>
  C5: a field is emitted between double quotes, with every double quote of it doubled,
  exactly when its text contains a comma or a double quote, and is emitted as it is
  exactly when it contains neither; the fields of a row are joined by commas; every row,
  the last one too, is followed by one newline. The fields are the texts of the cells
  after the trimming of line 237.
\<close>

theorem toCsv_escaping:
  \<open>((escapeField f =
       dquote # concat (map (\<lambda>c. if c = dquote then [dquote, dquote] else [c]) f) @ [dquote])
      = (comma \<in> set f \<or> dquote \<in> set f)) \<and>
   ((escapeField f = f) = (comma \<notin> set f \<and> dquote \<notin> set f)) \<and>
   js_join comma (map escapeField (f # fs)) =
     escapeField f @ concat (map (\<lambda>g. comma # escapeField g) fs) \<and>
   toCsv rows = concat (map (\<lambda>r. js_join comma (map escapeField r) @ [newline]) rows) \<and>
   escapeField ''Room "B"'' = ''"Room ""B"""'' \<and>
   escapeField ''Math, Sec A'' = ''"Math, Sec A"''\<close>
proof -
  have len: "length (dquote # replace_quotes f @ [dquote]) \<noteq> length f"
    using length_replace_quotes [of f] by simp
  then have ne: "dquote # replace_quotes f @ [dquote] \<noteq> f"
    by metis
  have a: "(escapeField f = dquote # replace_quotes f @ [dquote])
      = (comma \<in> set f \<or> dquote \<in> set f)"
    using ne by (auto simp: escapeField_cases)
  have b: "(escapeField f = f) = (comma \<notin> set f \<and> dquote \<notin> set f)"
    using ne by (auto simp: escapeField_cases)
  have c: "js_join comma (map escapeField (f # fs)) =
     escapeField f @ concat (map (\<lambda>g. comma # escapeField g) fs)"
    by (simp add: js_join_Cons comp_def)
  have d: \<open>escapeField ''Room "B"'' = ''"Room ""B"""''\<close>
    by code_simp
  have e: \<open>escapeField ''Math, Sec A'' = ''"Math, Sec A"''\<close>
    by code_simp
  from a b c d e toCsv_concat [of rows] show ?thesis
    by (simp only: replace_quotes_concat simp_thms)
qed

lemma js_split_no_sep: "sep \<notin> set a \<Longrightarrow> js_split sep a = [a]"
  by (induction a) auto

lemma js_split_pieces: "p \<in> set (js_split sep s) \<Longrightarrow> sep \<notin> set p"
  by (induction s arbitrary: p) (auto split: if_splits list.splits)

lemma count_js_join:
  "g \<in> set ps \<Longrightarrow> count_list g c \<le> count_list (js_join sep ps) c"
  by (induction sep ps rule: js_join.induct) auto

lemma count_concat_lines:
  "length rows \<le> count_list (concat (map (\<lambda>r. g r @ [newline]) rows)) newline"
  by (induction rows) auto

lemma count_concat_lines_more:
  assumes "r \<in> set rows" and "0 < count_list (g r) newline"
  shows "length rows < count_list (concat (map (\<lambda>r. g r @ [newline]) rows)) newline"
  using assms
proof (induction rows)
  case Nil
  then show ?case by simp
next
  case (Cons a rows)
  show ?case
  proof (cases "r = a")
    case True
    then show ?thesis
      using Cons.prems(2) count_concat_lines [of rows g] by simp
  next
    case False
    then show ?thesis using Cons by auto
  qed
qed

text \<open>
  C10: a field with a newline and without comma and double quote is emitted as it is;
  the document then has more newlines than rows, and the field is none of the pieces
  between newlines.
\<close>

theorem newline_field_breaks_lines:
  assumes "newline \<in> set f" and "comma \<notin> set f" and "dquote \<notin> set f"
    and "f \<in> set r" and "r \<in> set rows"
  shows "escapeField f = f \<and>
         length rows < count_list (toCsv rows) newline \<and>
         f \<notin> set (js_split newline (toCsv rows))"
proof -
  have esc: "escapeField f = f"
    using assms(2,3) by (simp add: escapeField_cases)
  have "0 < count_list f newline"
    using assms(1) count_list_0_iff [of f newline] by simp
  moreover have "count_list (escapeField f) newline
      \<le> count_list (js_join comma (map escapeField r)) newline"
    using assms(4) by (intro count_js_join) simp
  ultimately have "0 < count_list (js_join comma (map escapeField r)) newline"
    using esc by simp
  then have more: "length rows < count_list (toCsv rows) newline"
    unfolding toCsv_concat
    using assms(5) count_concat_lines_more [of r rows "\<lambda>r. js_join comma (map escapeField r)"]
    by simp
  have "f \<notin> set (js_split newline (toCsv rows))"
    using assms(1) js_split_pieces by blast
  with esc more show ?thesis by blast
qed

text \<open>
  C10, witness: the one field a, newline, b gives the document a, newline, b, newline,
  whose pieces between newlines are a, b and the empty string.
\<close>

theorem newline_field_breaks_lines_witness:
  "newline \<in> set [CHR ''a'', CHR 0x0A, CHR ''b''] \<and>
   toCsv [[[CHR ''a'', CHR 0x0A, CHR ''b'']]] = [CHR ''a'', CHR 0x0A, CHR ''b'', CHR 0x0A] \<and>
   js_split newline (toCsv [[[CHR ''a'', CHR 0x0A, CHR ''b'']]]) = [''a'', ''b'', ''''] \<and>
   length [[[CHR ''a'', CHR 0x0A, CHR ''b'']]]
     < count_list (toCsv [[[CHR ''a'', CHR 0x0A, CHR ''b'']]]) newline"
proof -
  let ?f = "[CHR ''a'', CHR 0x0A, CHR ''b'']"
  have h1: "newline \<in> set ?f" by (simp add: newline_def)
  have h2: "comma \<notin> set ?f" by (simp add: comma_def)
  have h3: "dquote \<notin> set ?f" by (simp add: dquote_def)
  have ev: "toCsv [[?f]] = [CHR ''a'', CHR 0x0A, CHR ''b'', CHR 0x0A]" by code_simp
  have sp: "js_split newline (toCsv [[?f]]) = [''a'', ''b'', '''']" by code_simp
  from newline_field_breaks_lines [OF h1 h2 h3, of "[?f]" "[[?f]]"]
  have "length [[?f]] < count_list (toCsv [[?f]]) newline" by simp
  with h1 ev sp show ?thesis by blast
qed

subsection \<open>Reading the CSV back\<close>

lemma chars_differ: "comma \<noteq> dquote" "newline \<noteq> comma" "newline \<noteq> dquote"
  by (simp_all add: comma_def dquote_def newline_def)

lemma csv_fields_plain:
  assumes "comma \<notin> set f" and "dquote \<notin> set f"
  shows "csv_fields False cur (f @ rest) = csv_fields False (cur @ f) rest"
  using assms by (induction f arbitrary: cur) auto

lemma csv_fields_closing:
  assumes "rest = [] \<or> hd rest \<noteq> dquote"
  shows "csv_fields True cur (dquote # rest) = csv_fields False cur rest"
  using assms by (cases rest) auto

lemma csv_fields_quoted:
  assumes "rest = [] \<or> hd rest \<noteq> dquote"
  shows "csv_fields True cur (replace_quotes f @ dquote # rest) = csv_fields False (cur @ f) rest"
  using assms
proof (induction f arbitrary: cur)
  case Nil
  then show ?case by (simp add: csv_fields_closing)
next
  case (Cons c f)
  show ?case
  proof (cases "c = dquote")
    case True
    then show ?thesis using Cons by simp
  next
    case False
    obtain x xs where "replace_quotes f @ dquote # rest = x # xs"
      by (cases "replace_quotes f @ dquote # rest") auto
    then show ?thesis using False Cons by simp
  qed
qed

lemma csv_fields_escaped:
  assumes "rest = [] \<or> hd rest = comma"
  shows "csv_fields False [] (escapeField f @ rest) = csv_fields False f rest"
proof (cases "comma \<in> set f \<or> dquote \<in> set f")
  case True
  have "rest = [] \<or> hd rest \<noteq> dquote"
    using assms chars_differ(1) by auto
  then have "csv_fields True [] (replace_quotes f @ dquote # rest) = csv_fields False ([] @ f) rest"
    by (rule csv_fields_quoted)
  then show ?thesis
    using True chars_differ(1) by (simp add: escapeField_cases)
next
  case False
  then show ?thesis
    using csv_fields_plain [of f "[]" rest] by (simp add: escapeField_cases)
qed

lemma csv_fields_row:
  "r \<noteq> [] \<Longrightarrow> csv_fields False [] (js_join comma (map escapeField r)) = r"
proof (induction r rule: list_nonempty_induct)
  case (single f)
  show ?case using csv_fields_escaped [of "[]" f] by simp
next
  case (cons f fs)
  then obtain g gs where fs: "fs = g # gs" by (cases fs) auto
  have "csv_fields False [] (escapeField f @ comma # js_join comma (map escapeField fs))
      = csv_fields False f (comma # js_join comma (map escapeField fs))"
    by (rule csv_fields_escaped) simp
  then show ?case using cons fs by simp
qed

lemma set_escapeField: "set (escapeField f) \<subseteq> insert dquote (set f)"
  by (auto simp: escapeField_cases set_replace_quotes)

lemma set_js_join: "set (js_join sep ps) \<subseteq> insert sep (\<Union>p\<in>set ps. set p)"
  by (induction sep ps rule: js_join.induct) auto

lemma row_no_newline:
  assumes "\<forall>f\<in>set r. newline \<notin> set f"
  shows "newline \<notin> set (js_join comma (map escapeField r))"
proof
  assume "newline \<in> set (js_join comma (map escapeField r))"
  then have "newline \<in> insert comma (\<Union>p\<in>set (map escapeField r). set p)"
    using set_js_join by blast
  then obtain f where "f \<in> set r" and "newline \<in> set (escapeField f)"
    using chars_differ(2) by auto
  then have "newline \<in> insert dquote (set f)"
    using set_escapeField by blast
  then show False
    using assms \<open>f \<in> set r\<close> chars_differ(3) by auto
qed

lemma js_split_lines:
  assumes "\<forall>l\<in>set ls. newline \<notin> set l"
  shows "js_split newline (concat (map (\<lambda>l. l @ [newline]) ls)) = ls @ [[]]"
  using assms
proof (induction ls)
  case Nil
  then show ?case by simp
next
  case (Cons l ls)
  have "js_split newline (l @ newline # concat (map (\<lambda>l. l @ [newline]) ls))
      = l # js_split newline (concat (map (\<lambda>l. l @ [newline]) ls))"
    using Cons.prems by (intro js_split_first) simp
  then show ?case using Cons by simp
qed

lemma csv_lines_toCsv:
  assumes "\<forall>r\<in>set rows. \<forall>f\<in>set r. newline \<notin> set f"
  shows "csv_lines (toCsv rows) = map (\<lambda>r. js_join comma (map escapeField r)) rows"
proof -
  let ?line = "\<lambda>r. js_join comma (map escapeField r)"
  have "toCsv rows = concat (map (\<lambda>l. l @ [newline]) (map ?line rows))"
    by (simp add: toCsv_concat comp_def)
  moreover have "\<forall>l\<in>set (map ?line rows). newline \<notin> set l"
    using assms row_no_newline by auto
  ultimately have "js_split newline (toCsv rows) = map ?line rows @ [[]]"
    using js_split_lines by metis
  then show ?thesis by (simp add: csv_lines_def)
qed

text \<open>
  C6, as the code has it: when every row has at least one field and no field contains
  a newline, reading the document back (rows split on newline, fields split on commas
  outside quotes, doubled quotes undone) gives the original rows.
\<close>

theorem csv_round_trip:
  assumes "\<forall>r\<in>set rows. r \<noteq> [] \<and> (\<forall>f\<in>set r. newline \<notin> set f)"
  shows "parseCsv (toCsv rows) = rows"
proof -
  have "csv_lines (toCsv rows) = map (\<lambda>r. js_join comma (map escapeField r)) rows"
    using assms by (intro csv_lines_toCsv) blast
  then have "parseCsv (toCsv rows) =
      map (\<lambda>r. csv_fields False [] (js_join comma (map escapeField r))) rows"
    by (simp add: parseCsv_def comp_def)
  also have "\<dots> = map (\<lambda>r. r) rows"
    using assms by (intro map_cong refl csv_fields_row) blast
  finally show ?thesis by simp
qed

text \<open>
  C6, witness: a table with a comma, with double quotes and with an empty cell.
\<close>

theorem csv_round_trip_witness:
  \<open>parseCsv (toCsv [[''Day'', ''9:00 - 10:00''], [''Monday'', ''Math, Sec A''],
                    [''Tuesday'', ''Room "B"''], [''Wednesday'', '''']])
   = [[''Day'', ''9:00 - 10:00''], [''Monday'', ''Math, Sec A''],
      [''Tuesday'', ''Room "B"''], [''Wednesday'', '''']] \<and>
   toCsv [[''Day'', ''9:00''], [''Monday'', ''Math, Sec A'']]
   = ''Day,9:00'' @ [newline] @ ''Monday,"Math, Sec A"'' @ [newline]\<close>
proof -
  let ?rows = \<open>[[''Day'', ''9:00 - 10:00''], [''Monday'', ''Math, Sec A''],
                    [''Tuesday'', ''Room "B"''], [''Wednesday'', '''']]\<close>
  have h: "\<forall>r\<in>set ?rows. r \<noteq> [] \<and> (\<forall>f\<in>set r. newline \<notin> set f)"
    by (simp add: newline_def)
  have ev: \<open>toCsv [[''Day'', ''9:00''], [''Monday'', ''Math, Sec A'']]
   = ''Day,9:00'' @ [newline] @ ''Monday,"Math, Sec A"'' @ [newline]\<close>
    by code_simp
  from csv_round_trip [OF h] ev show ?thesis by simp
qed

text \<open>
  C6, counterexample to the claim as stated: the one field a, newline, b is read back
  as two rows, and a row without fields is read back as a row with one empty field.
\<close>

theorem csv_round_trip_newline_counterexample:
  "parseCsv (toCsv [[[CHR ''a'', CHR 0x0A, CHR ''b'']]]) = [[''a''], [''b'']] \<and>
   parseCsv (toCsv [[[CHR ''a'', CHR 0x0A, CHR ''b'']]]) \<noteq> [[[CHR ''a'', CHR 0x0A, CHR ''b'']]] \<and>
   parseCsv (toCsv [[]]) = [[[]]] \<and>
   parseCsv (toCsv [[]]) \<noteq> [[]]"
  by code_simp

end
